theory Spec2Isabelle
  imports Complex_Main "HOL-Library.Multiset"
begin

section \<open>Data model of \<open>src/index.ts\<close>\<close>

text \<open>
  A \<open>Date\<close> is compared through its millisecond value, so it is an integer here. Every
  \<open>new Date()\<close> of the source is a reading of the wall clock; the readings are
  arguments of the functions that take them, in the order the source takes them.

  A JavaScript \<open>number\<close> that carries a duration is an exact real in the functions
  that come first: they serve the properties of the store, the counts, the ranking and
  the summary, which do not turn on rounding. The arithmetic of IEEE doubles, with its
  rounding, overflow and \<open>NaN\<close>, is that of the section on double precision, which
  repeats the accumulator with it. The one non-finite literal of
  the source, the \<open>Infinity\<close> that a fresh entry starts its minimum with, is the
  extra value of the type of \<open>minDuration\<close>. The counter is a natural number: it
  starts at 0 and is only ever incremented. The field \<open>method\<close> of an entry is
  written \<open>method'\<close>.
\<close>

type_synonym Date = int

datatype jsnumber = Infinity | Finite real

fun Math_min :: "jsnumber \<Rightarrow> real \<Rightarrow> jsnumber" where
  "Math_min Infinity d = Finite d"
| "Math_min (Finite m) d = Finite (min m d)"

definition Math_max :: "real \<Rightarrow> real \<Rightarrow> real" where
  "Math_max a b = max a b"

text \<open>The comparison \<open>x \<le> r\<close> of a possibly infinite number with a finite one.\<close>

fun number_le :: "jsnumber \<Rightarrow> real \<Rightarrow> bool" where
  "number_le Infinity r = False"
| "number_le (Finite m) r = (m \<le> r)"

record EndpointStats =
  count :: nat
  totalDuration :: real
  averageDuration :: real
  minDuration :: jsnumber
  maxDuration :: real
  lastAccessedAt :: Date
  method' :: string
  path :: string

text \<open>
  The options the accumulator reads. The callbacks \<open>onUpdate\<close> and \<open>logger\<close> are
  observers outside the store; the default \<open>onUpdate\<close> does nothing, and that is
  the one modelled.
\<close>

record CounterOptions =
  includeQueryParams :: bool
  groupByMethod :: bool
  maxEndpoints :: nat
  normalizePaths :: bool
  enableLogging :: bool

subsection \<open>The \<open>Map\<close> of the class\<close>

text \<open>
  A JavaScript \<open>Map\<close> iterates in insertion order: \<open>set\<close> on a present key
  replaces the value where it stands, \<open>set\<close> on an absent key appends, \<open>delete\<close>
  removes. The scan order decides the eviction and the ranking, so the map is an
  association list in iteration order.
\<close>

type_synonym 'v JsMap = "(string \<times> 'v) list"

fun Map_get :: "'v JsMap \<Rightarrow> string \<Rightarrow> 'v option" where
  "Map_get [] k = None"
| "Map_get ((k', v) # ps) k = (if k' = k then Some v else Map_get ps k)"

fun Map_set :: "string \<Rightarrow> 'v \<Rightarrow> 'v JsMap \<Rightarrow> 'v JsMap" where
  "Map_set k v [] = [(k, v)]"
| "Map_set k v ((k', v') # ps) =
     (if k' = k then (k, v) # ps else (k', v') # Map_set k v ps)"

definition Map_delete :: "string \<Rightarrow> 'v JsMap \<Rightarrow> 'v JsMap" where
  "Map_delete k ps = filter (\<lambda>p. fst p \<noteq> k) ps"

definition Map_size :: "'v JsMap \<Rightarrow> nat" where
  "Map_size ps = length ps"

definition Map_keys :: "'v JsMap \<Rightarrow> string list" where
  "Map_keys ps = map fst ps"

definition Map_values :: "'v JsMap \<Rightarrow> 'v list" where
  "Map_values ps = map snd ps"

definition Map_has :: "'v JsMap \<Rightarrow> string \<Rightarrow> bool" where
  "Map_has ps k = (k \<in> set (Map_keys ps))"

record EndpointCounter =
  stats :: "EndpointStats JsMap"
  options :: CounterOptions

definition defaultOptions :: CounterOptions where
  "defaultOptions = \<lparr>includeQueryParams = False, groupByMethod = True,
     maxEndpoints = 1000, normalizePaths = True, enableLogging = True\<rparr>"

text \<open>
  The constructor spreads the caller's options over the defaults; its argument here is
  the result of that spread, \<open>defaultOptions\<close> with the caller's fields updated.
\<close>

definition createEndpointCounter :: "CounterOptions \<Rightarrow> EndpointCounter" where
  "createEndpointCounter opts = \<lparr>stats = [], options = opts\<rparr>"

section \<open>The accumulator\<close>

subsection \<open>\<open>cleanupIfNeeded\<close>\<close>

text \<open>
  The \<open>for\<close> loop of \<open>cleanupIfNeeded\<close>, with its two variables \<open>lruKey\<close> and
  \<open>lruTime\<close> as the accumulator. \<open>lruKey\<close> is \<open>string | null\<close>.
\<close>

fun lru_scan :: "EndpointStats JsMap \<Rightarrow> string option \<times> Date \<Rightarrow> string option \<times> Date" where
  "lru_scan [] acc = acc"
| "lru_scan ((key, st) # rest) (lruKey, lruTime) =
     (if lastAccessedAt st < lruTime
      then lru_scan rest (Some key, lastAccessedAt st)
      else lru_scan rest (lruKey, lruTime))"

text \<open>\<open>if (lruKey)\<close>: \<open>null\<close> and the empty string are falsy.\<close>

fun truthy :: "string option \<Rightarrow> bool" where
  "truthy None = False"
| "truthy (Some s) = (s \<noteq> [])"

definition cleanupIfNeeded :: "Date \<Rightarrow> EndpointCounter \<Rightarrow> EndpointCounter" where
  "cleanupIfNeeded now c =
     (if Map_size (stats c) \<ge> maxEndpoints (options c) then
        (let lruKey = fst (lru_scan (stats c) (None, now)) in
         if truthy lruKey
         then (case lruKey of Some k \<Rightarrow> c\<lparr>stats := Map_delete k (stats c)\<rparr> | None \<Rightarrow> c)
         else c)
      else c)"

subsection \<open>\<open>incrementCount\<close>\<close>

text \<open>
  The three clock readings are, in source order: the one of \<open>cleanupIfNeeded\<close>, the
  one of the fresh entry (taken only when the key is absent), the one stored as
  \<open>lastAccessedAt\<close>.
\<close>

definition freshStats :: "Date \<Rightarrow> string \<Rightarrow> string \<Rightarrow> EndpointStats" where
  "freshStats now m pathname = \<lparr>count = 0, totalDuration = 0, averageDuration = 0,
     minDuration = Infinity, maxDuration = 0, lastAccessedAt = now,
     method' = m, path = pathname\<rparr>"

definition updateStats :: "Date \<Rightarrow> real \<Rightarrow> EndpointStats \<Rightarrow> EndpointStats" where
  "updateStats now duration currentStats =
     (let s1 = currentStats\<lparr>count := count currentStats + 1\<rparr>;
          s2 = s1\<lparr>totalDuration := totalDuration s1 + duration\<rparr>;
          s3 = s2\<lparr>averageDuration := totalDuration s2 / real (count s2)\<rparr>;
          s4 = s3\<lparr>minDuration := Math_min (minDuration s3) duration\<rparr>;
          s5 = s4\<lparr>maxDuration := Math_max (maxDuration s4) duration\<rparr>
      in s5\<lparr>lastAccessedAt := now\<rparr>)"

definition incrementCount ::
  "Date \<Rightarrow> Date \<Rightarrow> Date \<Rightarrow> string \<Rightarrow> string \<Rightarrow> real \<Rightarrow> EndpointCounter \<Rightarrow> nat \<times> EndpointCounter" where
  "incrementCount t0 t1 t2 m pathname duration c =
     (let c1 = cleanupIfNeeded t0 c;
          currentStats = (case Map_get (stats c1) pathname of
                            Some e \<Rightarrow> e
                          | None \<Rightarrow> freshStats t1 m pathname);
          currentStats' = updateStats t2 duration currentStats
      in (count currentStats', c1\<lparr>stats := Map_set pathname currentStats' (stats c1)\<rparr>))"

subsection \<open>Sequences of \<open>incrementCount\<close> calls\<close>

text \<open>One call of \<open>incrementCount\<close>: its three clock readings and its arguments.\<close>

record RecordCall =
  clockCleanup :: Date
  clockCreate :: Date
  clockUpdate :: Date
  callMethod :: string
  callPath :: string
  callDuration :: real

definition record_call :: "RecordCall \<Rightarrow> EndpointCounter \<Rightarrow> nat \<times> EndpointCounter" where
  "record_call r c = incrementCount (clockCleanup r) (clockCreate r) (clockUpdate r)
     (callMethod r) (callPath r) (callDuration r) c"

text \<open>
  The calls of a list in order: the values they return, and the counter after the last.
\<close>

fun record_all :: "RecordCall list \<Rightarrow> EndpointCounter \<Rightarrow> nat list \<times> EndpointCounter" where
  "record_all [] c = ([], c)"
| "record_all (r # rs) c =
     (case record_call r c of (n, c') \<Rightarrow>
        (case record_all rs c' of (ns, c'') \<Rightarrow> (n # ns, c'')))"

section \<open>The query layer\<close>

subsection \<open>\<open>getStats\<close>\<close>

text \<open>
  \<open>endpoint?: string\<close> is an optional string; \<open>if (endpoint)\<close> is its truthiness.
  The result is the entry (or \<open>undefined\<close>), or a copy of the whole map.
\<close>

datatype StatsResult = Entry "EndpointStats option" | AllStats "EndpointStats JsMap"

definition getStats :: "string option \<Rightarrow> EndpointCounter \<Rightarrow> StatsResult" where
  "getStats endpoint c =
     (if truthy endpoint
      then (case endpoint of Some e \<Rightarrow> Entry (Map_get (stats c) e) | None \<Rightarrow> AllStats (stats c))
      else AllStats (stats c))"

subsection \<open>\<open>Array.prototype.sort\<close> and \<open>slice\<close>\<close>

text \<open>
  \<open>sort(comparefn)\<close> is a stable sort (ECMAScript 2019): \<open>a\<close> stays before \<open>b\<close>
  unless \<open>comparefn(a, b) > 0\<close>. For a comparator that is a difference of keys the
  result is unique; insertion from the right computes it.
\<close>

fun insort_cmp :: "('a \<Rightarrow> 'a \<Rightarrow> real) \<Rightarrow> 'a \<Rightarrow> 'a list \<Rightarrow> 'a list" where
  "insort_cmp cmp x [] = [x]"
| "insort_cmp cmp x (y # ys) =
     (if cmp x y \<le> 0 then x # y # ys else y # insort_cmp cmp x ys)"

definition Array_sort :: "('a \<Rightarrow> 'a \<Rightarrow> real) \<Rightarrow> 'a list \<Rightarrow> 'a list" where
  "Array_sort cmp xs = foldr (insort_cmp cmp) xs []"

text \<open>
  \<open>slice(0, end)\<close> for an integer \<open>end\<close>: a negative \<open>end\<close> counts from the end
  of the array.
\<close>

definition Array_slice0 :: "int \<Rightarrow> 'a list \<Rightarrow> 'a list" where
  "Array_slice0 end xs =
     (let len = int (length xs);
          final = (if end < 0 then max (len + end) 0 else min end len)
      in take (nat final) xs)"

subsection \<open>\<open>getTopEndpoints\<close>, \<open>getSlowestEndpoints\<close>, \<open>getSummary\<close>\<close>

text \<open>
  An element \<open>{endpoint, stats}\<close> of a ranking is the pair of the two. The limit is
  an integer; a call without a limit is the call with the default 10.
\<close>

definition byCount :: "string \<times> EndpointStats \<Rightarrow> string \<times> EndpointStats \<Rightarrow> real" where
  "byCount a b = real (count (snd b)) - real (count (snd a))"

definition byAverageDuration :: "string \<times> EndpointStats \<Rightarrow> string \<times> EndpointStats \<Rightarrow> real" where
  "byAverageDuration a b = averageDuration (snd b) - averageDuration (snd a)"

definition getTopEndpoints :: "int \<Rightarrow> EndpointCounter \<Rightarrow> (string \<times> EndpointStats) list" where
  "getTopEndpoints limit c = Array_slice0 limit (Array_sort byCount (stats c))"

definition getSlowestEndpoints :: "int \<Rightarrow> EndpointCounter \<Rightarrow> (string \<times> EndpointStats) list" where
  "getSlowestEndpoints limit c = Array_slice0 limit (Array_sort byAverageDuration (stats c))"

text \<open>\<open>xs[0]\<close>: \<open>undefined\<close> on the empty array.\<close>

fun index0 :: "'a list \<Rightarrow> 'a option" where
  "index0 [] = None"
| "index0 (x # xs) = Some x"

record Summary =
  totalEndpoints :: nat
  totalRequests :: nat
  sumDuration :: real
  meanDuration :: real
  topEndpoint :: "(string \<times> EndpointStats) option"
  slowestEndpoint :: "(string \<times> EndpointStats) option"

text \<open>
  The fields \<open>totalDuration\<close> and \<open>averageDuration\<close> of the summary object are
  \<open>sumDuration\<close> and \<open>meanDuration\<close> here: the entry's fields have the names already.
\<close>

definition getSummary :: "EndpointCounter \<Rightarrow> Summary" where
  "getSummary c =
     (let allStats = Map_values (stats c);
          totalRequests = foldl (\<lambda>sum stat. sum + count stat) 0 allStats;
          totalDuration = foldl (\<lambda>sum stat. sum + totalDuration stat) 0 allStats
      in \<lparr>totalEndpoints = Map_size (stats c),
          totalRequests = totalRequests,
          sumDuration = totalDuration,
          meanDuration = (if totalRequests > 0 then totalDuration / real totalRequests else 0),
          topEndpoint = index0 (getTopEndpoints 1 c),
          slowestEndpoint = index0 (getSlowestEndpoints 1 c)\<rparr>)"

section \<open>\<open>reset\<close>\<close>

definition reset :: "string option \<Rightarrow> EndpointCounter \<Rightarrow> EndpointCounter" where
  "reset endpoint c =
     (if truthy endpoint
      then (case endpoint of Some e \<Rightarrow> c\<lparr>stats := Map_delete e (stats c)\<rparr> | None \<Rightarrow> c\<lparr>stats := []\<rparr>)
      else c\<lparr>stats := []\<rparr>)"

section \<open>The accumulator in double precision\<close>

text \<open>
  The arithmetic of \<open>incrementCount\<close> is that of IEEE 754 binary64 numbers: a sum and
  a quotient are the exact results rounded to the nearest double, ties to the even
  significand. Where a property depends on the rounding, the exact reals above say
  nothing about the program; the functions of this section repeat \<open>cleanupIfNeeded\<close>
  and \<open>incrementCount\<close> with every number a double and every operation rounded.

  A finite double is \<open>m * 2 powi e\<close> with \<open>\<bar>m\<bar> < 2 ^ 53\<close> and
  \<open>-1074 \<le> e \<le> 971\<close>. The two zeros are one value here: the source divides by the
  count only, which is never zero, and in a comparison, in \<open>Math.min\<close> and in
  \<open>Math.max\<close> the two zeros differ by their sign alone.
\<close>

datatype double = Num real | PInfinity | NInfinity | NaN

text \<open>
  The exponent of the last place of the double nearest to \<open>x\<close>: the least \<open>e\<close> from
  \<open>-1074\<close> on with \<open>\<bar>x\<bar> < 2 powi (e + 53)\<close>; 972 when \<open>x\<close> lies beyond the
  finite doubles.
\<close>

definition exponents64 :: "int list" where
  "exponents64 = [- 1074..971]"

definition exponent64 :: "real \<Rightarrow> int" where
  "exponent64 x =
     (case find (\<lambda>e. \<bar>x\<bar> < 2 powi (e + 53)) exponents64 of
        Some e \<Rightarrow> e
      | None \<Rightarrow> 972)"

definition round_half_even :: "real \<Rightarrow> int" where
  "round_half_even y =
     (let f = \<lfloor>y\<rfloor>; r = y - of_int f
      in if r < 1 / 2 then f else if 1 / 2 < r then f + 1 else if even f then f else f + 1)"

definition round64 :: "real \<Rightarrow> double" where
  "round64 x =
     (let e = exponent64 x;
          y = of_int (round_half_even (x / 2 powi e)) * 2 powi e
      in if 2 powi 1024 \<le> \<bar>y\<bar> then (if x < 0 then NInfinity else PInfinity) else Num y)"

fun add64 :: "double \<Rightarrow> double \<Rightarrow> double" where
  "add64 NaN b = NaN"
| "add64 a NaN = NaN"
| "add64 PInfinity NInfinity = NaN"
| "add64 NInfinity PInfinity = NaN"
| "add64 PInfinity b = PInfinity"
| "add64 a PInfinity = PInfinity"
| "add64 NInfinity b = NInfinity"
| "add64 a NInfinity = NInfinity"
| "add64 (Num a) (Num b) = round64 (a + b)"

fun div64 :: "double \<Rightarrow> double \<Rightarrow> double" where
  "div64 NaN b = NaN"
| "div64 a NaN = NaN"
| "div64 PInfinity (Num b) = (if b < 0 then NInfinity else PInfinity)"
| "div64 NInfinity (Num b) = (if b < 0 then PInfinity else NInfinity)"
| "div64 (Num a) (Num b) =
     (if b = 0 then (if a = 0 then NaN else if a < 0 then NInfinity else PInfinity)
      else round64 (a / b))"
| "div64 (Num a) b = Num 0"
| "div64 a b = NaN"

fun Math_min64 :: "double \<Rightarrow> double \<Rightarrow> double" where
  "Math_min64 NaN b = NaN"
| "Math_min64 a NaN = NaN"
| "Math_min64 NInfinity b = NInfinity"
| "Math_min64 a NInfinity = NInfinity"
| "Math_min64 PInfinity b = b"
| "Math_min64 a PInfinity = a"
| "Math_min64 (Num a) (Num b) = Num (min a b)"

fun Math_max64 :: "double \<Rightarrow> double \<Rightarrow> double" where
  "Math_max64 NaN b = NaN"
| "Math_max64 a NaN = NaN"
| "Math_max64 PInfinity b = PInfinity"
| "Math_max64 a PInfinity = PInfinity"
| "Math_max64 NInfinity b = b"
| "Math_max64 a NInfinity = a"
| "Math_max64 (Num a) (Num b) = Num (max a b)"

text \<open>The comparison \<open>a <= b\<close> of two doubles: false when either is \<open>NaN\<close>.\<close>

fun le64 :: "double \<Rightarrow> double \<Rightarrow> bool" where
  "le64 NaN b = False"
| "le64 a NaN = False"
| "le64 NInfinity b = True"
| "le64 a PInfinity = True"
| "le64 PInfinity b = False"
| "le64 a NInfinity = False"
| "le64 (Num a) (Num b) = (a \<le> b)"

record EndpointStats64 =
  count64 :: double
  totalDuration64 :: double
  averageDuration64 :: double
  minDuration64 :: double
  maxDuration64 :: double
  lastAccessedAt64 :: Date
  method64 :: string
  path64 :: string

record EndpointCounter64 =
  stats64 :: "EndpointStats64 JsMap"
  options64 :: CounterOptions

definition createEndpointCounter64 :: "CounterOptions \<Rightarrow> EndpointCounter64" where
  "createEndpointCounter64 opts = \<lparr>stats64 = [], options64 = opts\<rparr>"

fun lru_scan64 :: "EndpointStats64 JsMap \<Rightarrow> string option \<times> Date \<Rightarrow> string option \<times> Date" where
  "lru_scan64 [] acc = acc"
| "lru_scan64 ((key, st) # rest) (lruKey, lruTime) =
     (if lastAccessedAt64 st < lruTime
      then lru_scan64 rest (Some key, lastAccessedAt64 st)
      else lru_scan64 rest (lruKey, lruTime))"

definition cleanupIfNeeded64 :: "Date \<Rightarrow> EndpointCounter64 \<Rightarrow> EndpointCounter64" where
  "cleanupIfNeeded64 now c =
     (if Map_size (stats64 c) \<ge> maxEndpoints (options64 c) then
        (let lruKey = fst (lru_scan64 (stats64 c) (None, now)) in
         if truthy lruKey
         then (case lruKey of Some k \<Rightarrow> c\<lparr>stats64 := Map_delete k (stats64 c)\<rparr> | None \<Rightarrow> c)
         else c)
      else c)"

definition freshStats64 :: "Date \<Rightarrow> string \<Rightarrow> string \<Rightarrow> EndpointStats64" where
  "freshStats64 now m pathname = \<lparr>count64 = Num 0, totalDuration64 = Num 0,
     averageDuration64 = Num 0, minDuration64 = PInfinity, maxDuration64 = Num 0,
     lastAccessedAt64 = now, method64 = m, path64 = pathname\<rparr>"

definition updateStats64 :: "Date \<Rightarrow> double \<Rightarrow> EndpointStats64 \<Rightarrow> EndpointStats64" where
  "updateStats64 now duration currentStats =
     (let s1 = currentStats\<lparr>count64 := add64 (count64 currentStats) (Num 1)\<rparr>;
          s2 = s1\<lparr>totalDuration64 := add64 (totalDuration64 s1) duration\<rparr>;
          s3 = s2\<lparr>averageDuration64 := div64 (totalDuration64 s2) (count64 s2)\<rparr>;
          s4 = s3\<lparr>minDuration64 := Math_min64 (minDuration64 s3) duration\<rparr>;
          s5 = s4\<lparr>maxDuration64 := Math_max64 (maxDuration64 s4) duration\<rparr>
      in s5\<lparr>lastAccessedAt64 := now\<rparr>)"

definition incrementCount64 ::
  "Date \<Rightarrow> Date \<Rightarrow> Date \<Rightarrow> string \<Rightarrow> string \<Rightarrow> double \<Rightarrow> EndpointCounter64
     \<Rightarrow> double \<times> EndpointCounter64" where
  "incrementCount64 t0 t1 t2 m pathname duration c =
     (let c1 = cleanupIfNeeded64 t0 c;
          currentStats = (case Map_get (stats64 c1) pathname of
                            Some e \<Rightarrow> e
                          | None \<Rightarrow> freshStats64 t1 m pathname);
          currentStats' = updateStats64 t2 duration currentStats
      in (count64 currentStats',
          c1\<lparr>stats64 := Map_set pathname currentStats' (stats64 c1)\<rparr>))"

text \<open>One call of \<open>incrementCount\<close>, and the calls of a list in order.\<close>

record RecordCall64 =
  clockCleanup64 :: Date
  clockCreate64 :: Date
  clockUpdate64 :: Date
  callMethod64 :: string
  callPath64 :: string
  callDuration64 :: double

definition record_call64 :: "RecordCall64 \<Rightarrow> EndpointCounter64 \<Rightarrow> double \<times> EndpointCounter64" where
  "record_call64 r c = incrementCount64 (clockCleanup64 r) (clockCreate64 r) (clockUpdate64 r)
     (callMethod64 r) (callPath64 r) (callDuration64 r) c"

fun run64 :: "RecordCall64 list \<Rightarrow> EndpointCounter64 \<Rightarrow> EndpointCounter64" where
  "run64 [] c = c"
| "run64 (r # rs) c = run64 rs (snd (record_call64 r c))"

text \<open>
  A \<open>GET\<close> observation in double precision whose three clock readings fall in the
  same millisecond.
\<close>

definition observe64 :: "Date \<Rightarrow> string \<Rightarrow> double \<Rightarrow> RecordCall64" where
  "observe64 t k d = \<lparr>clockCleanup64 = t, clockCreate64 = t, clockUpdate64 = t,
     callMethod64 = ''GET'', callPath64 = k, callDuration64 = d\<rparr>"

text \<open>
  The invariant of an entry under durations of whole milliseconds: count, total, minimum
  and maximum are natural numbers, the count at most \<open>N\<close> and the total at most \<open>S\<close>,
  the total lies between count times the minimum and count times the maximum, and the
  average is the rounded quotient.
\<close>

definition entry_ok64 :: "nat \<Rightarrow> nat \<Rightarrow> EndpointStats64 \<Rightarrow> bool" where
  "entry_ok64 S N e \<longleftrightarrow>
     (\<exists>c T m M :: nat.
        count64 e = Num (real c) \<and> 1 \<le> c \<and> c \<le> N
      \<and> totalDuration64 e = Num (real T) \<and> T \<le> S
      \<and> minDuration64 e = Num (real m) \<and> maxDuration64 e = Num (real M)
      \<and> m * c \<le> T \<and> T \<le> M * c \<and> M \<le> T
      \<and> averageDuration64 e = round64 (real T / real c))"

section \<open>Notions used to state the properties\<close>




subsection \<open>Concrete inputs\<close>

text \<open>
  A \<open>GET\<close> observation whose three clock readings fall in the same millisecond
  \<open>t\<close>; a counter built with \<open>{ maxEndpoints: n }\<close>; a counter with that capacity
  and the given store; the entry of a key observed \<open>n\<close> times with the same duration
  \<open>d\<close>, last at \<open>t\<close>.
\<close>

definition observe :: "Date \<Rightarrow> string \<Rightarrow> real \<Rightarrow> RecordCall" where
  "observe t k d = \<lparr>clockCleanup = t, clockCreate = t, clockUpdate = t,
     callMethod = ''GET'', callPath = k, callDuration = d\<rparr>"

definition withCapacity :: "nat \<Rightarrow> EndpointCounter" where
  "withCapacity n = createEndpointCounter (defaultOptions\<lparr>maxEndpoints := n\<rparr>)"

definition counterWith :: "nat \<Rightarrow> EndpointStats JsMap \<Rightarrow> EndpointCounter" where
  "counterWith n ps = \<lparr>stats = ps, options = defaultOptions\<lparr>maxEndpoints := n\<rparr>\<rparr>"

definition entryAt :: "string \<Rightarrow> nat \<Rightarrow> real \<Rightarrow> Date \<Rightarrow> EndpointStats" where
  "entryAt k n d t = \<lparr>count = n, totalDuration = real n * d, averageDuration = d,
     minDuration = Finite d, maxDuration = d, lastAccessedAt = t, method' = ''GET'', path = k\<rparr>"

section \<open>The map operations\<close>

lemma Map_get_set: "Map_get (Map_set k v ps) k' = (if k' = k then Some v else Map_get ps k')"
  by (induction ps) auto

lemma Map_get_delete: "Map_get (Map_delete k ps) k' = (if k' = k then None else Map_get ps k')"
  by (induction ps) (auto simp: Map_delete_def)


lemma Map_get_in_set: "Map_get ps k = Some v \<Longrightarrow> (k, v) \<in> set ps"
  by (induction ps) (auto split: if_splits)

lemma Map_delete_absent: "\<not> Map_has ps k \<Longrightarrow> Map_delete k ps = ps"
  by (induction ps) (auto simp: Map_has_def Map_keys_def Map_delete_def)

lemma Map_delete_idem: "Map_delete k (Map_delete k ps) = Map_delete k ps"
  by (simp add: Map_delete_def)


lemma set_Map_set: "set (Map_set k v ps) \<subseteq> insert (k, v) (set ps)"
  by (induction ps) (auto split: if_splits)

lemma set_Map_delete: "set (Map_delete k ps) \<subseteq> set ps"
  by (auto simp: Map_delete_def)


text \<open>The keys of a \<open>Map\<close> are distinct, and the operations keep them so.\<close>

lemma Map_keys_set: "set (Map_keys (Map_set k v ps)) = insert k (set (Map_keys ps))"
proof (induction ps)
  case Nil
  then show ?case by (simp add: Map_keys_def)
next
  case (Cons a ps)
  then show ?case by (cases a) (simp add: Map_keys_def insert_commute)
qed

lemma distinct_Map_set: "distinct (Map_keys ps) \<Longrightarrow> distinct (Map_keys (Map_set k v ps))"
proof (induction ps)
  case Nil
  then show ?case by (simp add: Map_keys_def)
next
  case (Cons a ps)
  obtain k' v' where a: "a = (k', v')" by (cases a)
  from Cons.prems a have k': "k' \<notin> set (Map_keys ps)" and d: "distinct (Map_keys ps)"
    by (simp_all add: Map_keys_def)
  show ?case
  proof (cases "k' = k")
    case True
    then show ?thesis using a Cons.prems by (simp add: Map_keys_def)
  next
    case False
    have "k' \<notin> set (Map_keys (Map_set k v ps))"
      using k' False by (simp add: Map_keys_set)
    then show ?thesis
      using a False Cons.IH [OF d] by (simp add: Map_keys_def)
  qed
qed

lemma distinct_Map_delete: "distinct (Map_keys ps) \<Longrightarrow> distinct (Map_keys (Map_delete k ps))"
  by (simp add: Map_keys_def Map_delete_def distinct_map_filter)

section \<open>One call of \<open>incrementCount\<close>\<close>


lemma stats_incrementCount:
  "stats (snd (incrementCount t0 t1 t2 m pathname d c)) =
     Map_set pathname
       (updateStats t2 d (case Map_get (stats (cleanupIfNeeded t0 c)) pathname of
                            Some e \<Rightarrow> e | None \<Rightarrow> freshStats t1 m pathname))
       (stats (cleanupIfNeeded t0 c))"
  by (simp add: incrementCount_def Let_def)



lemma cleanup_cases:
  "stats (cleanupIfNeeded now c) = stats c
   \<or> (\<exists>j. stats (cleanupIfNeeded now c) = Map_delete j (stats c))"
  by (auto simp: cleanupIfNeeded_def Let_def split: option.splits)

lemma distinct_incrementCount:
  assumes "distinct (Map_keys (stats c))"
  shows "distinct (Map_keys (stats (snd (incrementCount t0 t1 t2 m pathname d c))))"
proof -
  have "distinct (Map_keys (stats (cleanupIfNeeded t0 c)))"
    using cleanup_cases [of t0 c] assms distinct_Map_delete by auto
  then show ?thesis
    unfolding stats_incrementCount by (rule distinct_Map_set)
qed

section \<open>Concrete runs\<close>

text \<open>
  Single calls evaluated on explicit stores. Two observations in different milliseconds
  fill a counter of capacity 2; the third call then either brings a new key or repeats
  a present one.
\<close>

lemmas run_simps = record_call_def incrementCount_def cleanupIfNeeded_def
  createEndpointCounter_def defaultOptions_def withCapacity_def counterWith_def observe_def
  entryAt_def Map_size_def Map_delete_def updateStats_def freshStats_def Let_def Math_max_def

lemma stats_withCapacity: "stats (withCapacity n) = []"
  by (simp add: withCapacity_def createEndpointCounter_def)

lemma stats_counterWith: "stats (counterWith n ps) = ps"
  by (simp add: counterWith_def)

lemma maxEndpoints_counterWith: "maxEndpoints (options (counterWith n ps)) = n"
  by (simp add: counterWith_def)

lemma maxEndpoints_withCapacity: "maxEndpoints (options (withCapacity n)) = n"
  by (simp add: withCapacity_def createEndpointCounter_def)


lemma record_all_Cons:
  "record_all (r # rs) c =
     (fst (record_call r c) # fst (record_all rs (snd (record_call r c))),
      snd (record_all rs (snd (record_call r c))))"
  by (simp split: prod.splits)

lemma step_x1:
  "record_call (observe 1 ''/x'' 10) (withCapacity 2) =
     (1, counterWith 2 [(''/x'', entryAt ''/x'' 1 10 1)])"
  by (simp add: run_simps)

lemma step_y2:
  "record_call (observe 2 ''/y'' 10) (counterWith 2 [(''/x'', entryAt ''/x'' 1 10 1)]) =
     (1, counterWith 2 [(''/x'', entryAt ''/x'' 1 10 1), (''/y'', entryAt ''/y'' 1 10 2)])"
  by (simp add: run_simps)

lemma step_z3:
  "record_call (observe 3 ''/z'' 10)
     (counterWith 2 [(''/x'', entryAt ''/x'' 1 10 1), (''/y'', entryAt ''/y'' 1 10 2)]) =
     (1, counterWith 2 [(''/y'', entryAt ''/y'' 1 10 2), (''/z'', entryAt ''/z'' 1 10 3)])"
  by (simp add: run_simps)

lemma step_y3:
  "record_call (observe 3 ''/y'' 10)
     (counterWith 2 [(''/x'', entryAt ''/x'' 1 10 1), (''/y'', entryAt ''/y'' 1 10 2)]) =
     (2, counterWith 2 [(''/y'', entryAt ''/y'' 2 10 3)])"
  by (simp add: run_simps)

text \<open>The same three keys observed within one millisecond.\<close>

lemma step_y1:
  "record_call (observe 1 ''/y'' 10) (counterWith 2 [(''/x'', entryAt ''/x'' 1 10 1)]) =
     (1, counterWith 2 [(''/x'', entryAt ''/x'' 1 10 1), (''/y'', entryAt ''/y'' 1 10 1)])"
  by (simp add: run_simps)

lemma step_z1:
  "record_call (observe 1 ''/z'' 10)
     (counterWith 2 [(''/x'', entryAt ''/x'' 1 10 1), (''/y'', entryAt ''/y'' 1 10 1)]) =
     (1, counterWith 2 [(''/x'', entryAt ''/x'' 1 10 1), (''/y'', entryAt ''/y'' 1 10 1),
                        (''/z'', entryAt ''/z'' 1 10 1)])"
  by (simp add: run_simps)




text \<open>Capacity 3, never reached: two keys, the first observed twice.\<close>

lemma step_a1:
  "record_call (observe 1 ''/a'' 100) (withCapacity 3) =
     (1, counterWith 3 [(''/a'', entryAt ''/a'' 1 100 1)])"
  by (simp add: run_simps)

lemma step_b2:
  "record_call (observe 2 ''/b'' 10) (counterWith 3 [(''/a'', entryAt ''/a'' 1 100 1)]) =
     (1, counterWith 3 [(''/a'', entryAt ''/a'' 1 100 1), (''/b'', entryAt ''/b'' 1 10 2)])"
  by (simp add: run_simps)

lemma step_a3:
  "record_call (observe 3 ''/a'' 200)
     (counterWith 3 [(''/a'', entryAt ''/a'' 1 100 1), (''/b'', entryAt ''/b'' 1 10 2)]) =
     (2, counterWith 3
        [(''/a'', \<lparr>count = 2, totalDuration = 300, averageDuration = 150,
                   minDuration = Finite 100, maxDuration = 200, lastAccessedAt = 3,
                   method' = ''GET'', path = ''/a''\<rparr>),
         (''/b'', entryAt ''/b'' 1 10 2)])"
  by (simp add: run_simps)

lemma run_xyz:
  "record_all [observe 1 ''/x'' 10, observe 1 ''/y'' 10, observe 1 ''/z'' 10] (withCapacity 2) =
     ([1, 1, 1], counterWith 2 [(''/x'', entryAt ''/x'' 1 10 1), (''/y'', entryAt ''/y'' 1 10 1),
                        (''/z'', entryAt ''/z'' 1 10 1)])"
  by (simp only: record_all_Cons record_all.simps(1) step_x1 step_y1 step_z1 fst_conv snd_conv)


lemma run_aba:
  "record_all [observe 1 ''/a'' 100, observe 2 ''/b'' 10, observe 3 ''/a'' 200] (withCapacity 3) =
     ([1, 1, 2], counterWith 3
        [(''/a'', \<lparr>count = 2, totalDuration = 300, averageDuration = 150,
                   minDuration = Finite 100, maxDuration = 200, lastAccessedAt = 3,
                   method' = ''GET'', path = ''/a''\<rparr>),
         (''/b'', entryAt ''/b'' 1 10 2)])"
  by (simp only: record_all_Cons record_all.simps(1) step_a1 step_b2 step_a3 fst_conv snd_conv)


lemma step_x3:
  "record_call (observe 3 ''/x'' 10)
     (counterWith 2 [(''/x'', entryAt ''/x'' 1 10 1), (''/y'', entryAt ''/y'' 1 10 2)]) =
     (1, counterWith 2 [(''/y'', entryAt ''/y'' 1 10 2), (''/x'', entryAt ''/x'' 1 10 3)])"
  by (simp add: run_simps)

lemma run_xy:
  "record_all [observe 1 ''/x'' 10, observe 2 ''/y'' 10] (withCapacity 2) =
     ([1, 1], counterWith 2 [(''/x'', entryAt ''/x'' 1 10 1), (''/y'', entryAt ''/y'' 1 10 2)])"
  by (simp only: record_all_Cons record_all.simps(1) step_x1 step_y2 fst_conv snd_conv)

text \<open>The empty string as a key, then a second key.\<close>

lemma step_e1:
  "record_call (observe 1 '''' 10) (withCapacity 3) =
     (1, counterWith 3 [('''', entryAt '''' 1 10 1)])"
  by (simp add: run_simps)

lemma step_e2:
  "record_call (observe 2 ''/a'' 10) (counterWith 3 [('''', entryAt '''' 1 10 1)]) =
     (1, counterWith 3 [('''', entryAt '''' 1 10 1), (''/a'', entryAt ''/a'' 1 10 2)])"
  by (simp add: run_simps)

lemma run_ea:
  "record_all [observe 1 '''' 10, observe 2 ''/a'' 10] (withCapacity 3) =
     ([1, 1], counterWith 3 [('''', entryAt '''' 1 10 1), (''/a'', entryAt ''/a'' 1 10 2)])"
  by (simp only: record_all_Cons record_all.simps(1) step_e1 step_e2 fst_conv snd_conv)

lemma incrementCount_observe:
  "incrementCount t t t ''GET'' k d c = record_call (observe t k d) c"
  by (simp add: record_call_def observe_def)

section \<open>C1: updating a present key at capacity\<close>

text \<open>
  Claim C1: at capacity, a call for a key that is already present removes no entry.
  \<open>incrementCount\<close> calls \<open>cleanupIfNeeded\<close> before it looks the key up, so the
  call evicts as a call for a new key would. With capacity 2 and the keys \<open>/x\<close> (last
  accessed at 1) and \<open>/y\<close> (at 2), the call for \<open>/y\<close> at 3 removes \<open>/x\<close>, and the
  call for \<open>/x\<close> at 3 removes \<open>/x\<close> itself and starts it again at count 1.
\<close>

theorem update_at_capacity_evicts:
  "record_all [observe 1 ''/x'' 10, observe 2 ''/y'' 10] (withCapacity 2) =
     ([1, 1], counterWith 2 [(''/x'', entryAt ''/x'' 1 10 1), (''/y'', entryAt ''/y'' 1 10 2)])
   \<and> Map_size (stats (counterWith 2 [(''/x'', entryAt ''/x'' 1 10 1), (''/y'', entryAt ''/y'' 1 10 2)]))
       = maxEndpoints (options (counterWith 2 [(''/x'', entryAt ''/x'' 1 10 1), (''/y'', entryAt ''/y'' 1 10 2)]))
   \<and> incrementCount 3 3 3 ''GET'' ''/y'' 10
        (counterWith 2 [(''/x'', entryAt ''/x'' 1 10 1), (''/y'', entryAt ''/y'' 1 10 2)]) =
       (2, counterWith 2 [(''/y'', entryAt ''/y'' 2 10 3)])
   \<and> incrementCount 3 3 3 ''GET'' ''/x'' 10
        (counterWith 2 [(''/x'', entryAt ''/x'' 1 10 1), (''/y'', entryAt ''/y'' 1 10 2)]) =
       (1, counterWith 2 [(''/y'', entryAt ''/y'' 1 10 2), (''/x'', entryAt ''/x'' 1 10 3)])"
  by (simp only: run_xy incrementCount_observe step_y3 step_x3)
     (simp add: stats_counterWith maxEndpoints_counterWith Map_size_def)

section \<open>C2: the capacity bound\<close>

text \<open>
  Claim C2: after every call the store holds at most \<open>maxEndpoints\<close> entries.
  \<open>cleanupIfNeeded\<close> starts its scan with \<open>lruTime = new Date()\<close> and takes an entry
  only when it is strictly older, so entries written in the current millisecond are never
  evicted. Three keys observed within one millisecond leave three entries in a counter
  of capacity 2.
\<close>

theorem capacity_exceeded_same_millisecond:
  "maxEndpoints (options (withCapacity 2)) = 2
   \<and> Map_size (stats (snd (record_all
        [observe 1 ''/x'' 10, observe 1 ''/y'' 10, observe 1 ''/z'' 10] (withCapacity 2)))) = 3"
  by (simp only: run_xyz snd_conv)
     (simp add: stats_counterWith maxEndpoints_withCapacity Map_size_def)

section \<open>C3: the returned counts of a key\<close>









section \<open>C4: the entry that eviction removes\<close>








section \<open>C5: invalid input\<close>




section \<open>C6: the bounds on the average\<close>

subsection \<open>Rounding to a double\<close>

lemma exponents64_iff: "e \<in> set exponents64 \<longleftrightarrow> - 1074 \<le> e \<and> e \<le> 971"
  by (simp only: exponents64_def set_upto atLeastAtMost_iff)

lemma exponent64_find:
  assumes "- 1074 \<le> e" and "e \<le> 971" and "\<bar>x\<bar> < 2 powi (e + 53)"
  shows "exponent64 x = Min {e' \<in> set exponents64. \<bar>x\<bar> < 2 powi (e' + 53)}"
proof -
  have "e \<in> set exponents64"
    using assms by (simp add: exponents64_iff)
  then have "\<exists>e'\<in>set exponents64. \<bar>x\<bar> < 2 powi (e' + 53)"
    using assms(3) by blast
  moreover have "sorted exponents64"
    by (simp only: exponents64_def sorted_upto)
  ultimately have "find (\<lambda>e. \<bar>x\<bar> < 2 powi (e + 53)) exponents64
      = Some (Min {e' \<in> set exponents64. \<bar>x\<bar> < 2 powi (e' + 53)})"
    by (rule sorted_find_Min [rotated])
  then show ?thesis
    by (simp add: exponent64_def)
qed

lemma exponent64_eq:
  assumes lo: "- 1074 \<le> e" and hi: "e \<le> 971" and less: "\<bar>x\<bar> < 2 powi (e + 53)"
    and least: "e = - 1074 \<or> 2 powi (e + 52) \<le> \<bar>x\<bar>"
  shows "exponent64 x = e"
proof -
  let ?S = "{e' \<in> set exponents64. \<bar>x\<bar> < 2 powi (e' + 53)}"
  have "Min ?S = e"
  proof (rule Min_eqI)
    show "finite ?S" by simp
    show "e \<in> ?S" using lo hi less by (simp add: exponents64_iff)
    show "e \<le> e'" if "e' \<in> ?S" for e'
    proof (rule ccontr)
      assume "\<not> e \<le> e'"
      then have e': "e' + 53 \<le> e + 52" by simp
      from that have "- 1074 \<le> e'" and P: "\<bar>x\<bar> < 2 powi (e' + 53)"
        by (simp_all add: exponents64_iff)
      with \<open>\<not> e \<le> e'\<close> have "e \<noteq> - 1074" by simp
      with least have "2 powi (e + 52) \<le> \<bar>x\<bar>" by simp
      moreover have "(2::real) powi (e' + 53) \<le> 2 powi (e + 52)"
        using e' by (intro power_int_increasing) simp_all
      ultimately show False using P by simp
    qed
  qed
  then show ?thesis
    using exponent64_find [OF lo hi less] by simp
qed

lemma exponent64_small:
  assumes "\<bar>x\<bar> < 2 ^ 53"
  shows "- 1074 \<le> exponent64 x \<and> exponent64 x \<le> 0"
proof -
  let ?S = "{e' \<in> set exponents64. \<bar>x\<bar> < 2 powi (e' + 53)}"
  have less: "\<bar>x\<bar> < 2 powi (0 + 53)"
    using assms by simp
  have eq: "exponent64 x = Min ?S"
    by (rule exponent64_find [OF _ _ less]) simp_all
  have fin: "finite ?S" by simp
  have zero: "0 \<in> ?S" using less by (simp add: exponents64_iff)
  have "Min ?S \<le> 0"
    using fin zero by (rule Min_le)
  moreover have "Min ?S \<in> ?S"
    using fin zero by (intro Min_in) auto
  then have "- 1074 \<le> Min ?S" by (simp add: exponents64_iff)
  ultimately show ?thesis using eq by simp
qed

lemma round_half_even_bounds: "\<lfloor>y\<rfloor> \<le> round_half_even y \<and> round_half_even y \<le> \<lceil>y\<rceil>"
proof -
  have "round_half_even y = \<lfloor>y\<rfloor> \<or> (round_half_even y = \<lfloor>y\<rfloor> + 1 \<and> of_int \<lfloor>y\<rfloor> < y)"
    by (auto simp: round_half_even_def Let_def)
  moreover have "\<lfloor>y\<rfloor> \<le> \<lceil>y\<rceil>"
    by (rule floor_le_ceiling)
  moreover have "\<lfloor>y\<rfloor> + 1 \<le> \<lceil>y\<rceil>" if "of_int \<lfloor>y\<rfloor> < y"
  proof -
    from that have "\<lfloor>y\<rfloor> < \<lceil>y\<rceil>" by (simp only: less_ceiling_iff)
    then show ?thesis by simp
  qed
  ultimately show ?thesis by auto
qed

text \<open>
  A real between two natural numbers below \<open>2 ^ 53\<close> is rounded to a double between
  them: both are multiples of the last place of its double.
\<close>

lemma round64_between:
  fixes a b :: nat
  assumes ax: "real a \<le> x" and xb: "x \<le> real b" and b: "b < 2 ^ 53"
  shows "\<exists>y. round64 x = Num y \<and> real a \<le> y \<and> y \<le> real b"
proof -
  define e where "e = exponent64 x"
  define u :: real where "u = 2 powi e"
  define s :: nat where "s = 2 ^ nat (- e)"
  define r where "r = round_half_even (x / u)"
  have x0: "0 \<le> x" using ax by (rule order_trans [rotated]) simp
  have "real b < 2 ^ 53" using b by (metis of_nat_less_iff of_nat_numeral of_nat_power)
  then have small: "\<bar>x\<bar> < 2 ^ 53" using x0 xb by simp
  from exponent64_small [OF small] have e: "- 1074 \<le> e" "e \<le> 0" by (simp_all add: e_def)
  have u0: "0 < u" by (simp add: u_def zero_less_power_int)
  have us: "u * real s = 1"
  proof -
    have "(2::real) powi e * 2 powi (- e) = 1"
      by (simp add: power_int_minus)
    moreover have "(2::real) powi (- e) = real s"
      using e(2) by (simp add: s_def power_int_def)
    ultimately show ?thesis by (simp add: u_def)
  qed
  then have inv: "1 / u = real s" using u0 by (simp add: field_simps)
  have scale: "real n / u = of_int (int (n * s))" for n
  proof -
    have "real n / u = real n * (1 / u)" by simp
    then show ?thesis by (simp only: inv) simp
  qed
  have "of_int (int (a * s)) \<le> x / u"
    using ax u0 unfolding scale [symmetric] by (simp add: divide_right_mono)
  then have "int (a * s) \<le> \<lfloor>x / u\<rfloor>" by (simp only: le_floor_iff)
  then have lo: "int (a * s) \<le> r"
    using round_half_even_bounds [of "x / u"] by (simp add: r_def)
  have "x / u \<le> of_int (int (b * s))"
    using xb u0 unfolding scale [symmetric] by (simp add: divide_right_mono)
  then have "\<lceil>x / u\<rceil> \<le> int (b * s)" by (simp only: ceiling_le_iff)
  then have hi: "r \<le> int (b * s)"
    using round_half_even_bounds [of "x / u"] by (simp add: r_def)
  have "real a = of_int (int (a * s)) * u"
    unfolding scale [symmetric] using u0 by simp
  also have "\<dots> \<le> of_int r * u"
  proof (rule mult_right_mono)
    show "(of_int (int (a * s)) :: real) \<le> of_int r"
      using lo by (simp only: of_int_le_iff)
    show "0 \<le> u" using u0 by simp
  qed
  finally have ya: "real a \<le> of_int r * u" .
  have "of_int r * u \<le> of_int (int (b * s)) * u"
  proof (rule mult_right_mono)
    show "(of_int r :: real) \<le> of_int (int (b * s))"
      using hi by (simp only: of_int_le_iff)
    show "0 \<le> u" using u0 by simp
  qed
  also have "\<dots> = real b"
    unfolding scale [symmetric] using u0 by simp
  finally have yb: "of_int r * u \<le> real b" .
  have "0 \<le> of_int r * u" using ya by (rule order_trans [rotated]) simp
  moreover have "real b < 2 powi 1024"
    using \<open>real b < 2 ^ 53\<close> by (rule less_trans) simp
  ultimately have "\<not> 2 powi 1024 \<le> \<bar>of_int r * u\<bar>"
    using yb by simp
  then have "round64 x = Num (of_int r * u)"
    by (simp add: round64_def Let_def r_def u_def e_def)
  then show ?thesis using ya yb by blast
qed

lemma round64_nat: "n < 2 ^ 53 \<Longrightarrow> round64 (real n) = Num (real n)"
  using round64_between [of n "real n" n] by auto

subsection \<open>Three observations of \<open>0.1\<close>\<close>

text \<open>
  With the exponent of the last place known, \<open>round64\<close> is a rounding to an integer.
\<close>

lemma round64_at:
  assumes "- 1074 \<le> e" and "e \<le> 971" and "\<bar>x\<bar> < 2 powi (e + 53)"
    and "e = - 1074 \<or> 2 powi (e + 52) \<le> \<bar>x\<bar>"
  shows "round64 x =
     (let y = of_int (round_half_even (x / 2 powi e)) * 2 powi e
      in if 2 powi 1024 \<le> \<bar>y\<bar> then (if x < 0 then NInfinity else PInfinity) else Num y)"
  using exponent64_eq [OF assms] by (simp add: round64_def)

text \<open>
  The literal \<open>0.1\<close> is the double \<open>3602879701896397 / 2 ^ 55\<close>. Its double is exact,
  its triple is a tie between two doubles and goes to the even one, and the third of
  that sum is rounded up, past \<open>0.1\<close>.
\<close>

lemma round64_tenth: "round64 (1 / 10) = Num (3602879701896397 / 36028797018963968)"
  by (subst round64_at [of "- 56"]) (simp_all add: round_half_even_def Let_def)

lemma round64_tenth_exact:
  "round64 (3602879701896397 / 36028797018963968) = Num (3602879701896397 / 36028797018963968)"
  by (subst round64_at [of "- 56"]) (simp_all add: round_half_even_def Let_def)

lemma round64_two_tenths:
  "round64 (3602879701896397 / 18014398509481984) = Num (3602879701896397 / 18014398509481984)"
  by (subst round64_at [of "- 55"]) (simp_all add: round_half_even_def Let_def)

lemma round64_three_tenths:
  "round64 (10808639105689191 / 36028797018963968) = Num (1351079888211149 / 4503599627370496)"
  by (subst round64_at [of "- 54"]) (simp_all add: round_half_even_def Let_def)

lemma round64_third:
  "round64 (1351079888211149 / 13510798882111488) = Num (7205759403792795 / 72057594037927936)"
  by (subst round64_at [of "- 56"]) (simp_all add: round_half_even_def Let_def)

lemma round64_1: "round64 1 = Num 1"
  using round64_nat [of 1] by simp

lemma round64_2: "round64 2 = Num 2"
  using round64_nat [of 2] by simp

lemma round64_3: "round64 3 = Num 3"
  using round64_nat [of 3] by simp

lemmas run64_simps = record_call64_def observe64_def incrementCount64_def cleanupIfNeeded64_def
  createEndpointCounter64_def defaultOptions_def Map_size_def Map_delete_def updateStats64_def
  freshStats64_def Let_def

lemma tenth_step1:
  "record_call64 (observe64 1 ''/a'' (Num (3602879701896397 / 36028797018963968)))
     (createEndpointCounter64 defaultOptions) =
   (Num 1,
    \<lparr>stats64 = [(''/a'',
       \<lparr>count64 = Num 1,
        totalDuration64 = Num (3602879701896397 / 36028797018963968),
        averageDuration64 = Num (3602879701896397 / 36028797018963968),
        minDuration64 = Num (3602879701896397 / 36028797018963968),
        maxDuration64 = Num (3602879701896397 / 36028797018963968),
        lastAccessedAt64 = 1, method64 = ''GET'', path64 = ''/a''\<rparr>)],
     options64 = defaultOptions\<rparr>)"
  by (simp add: run64_simps round64_1 round64_tenth_exact)

lemma tenth_step2:
  "record_call64 (observe64 2 ''/a'' (Num (3602879701896397 / 36028797018963968)))
    \<lparr>stats64 = [(''/a'',
       \<lparr>count64 = Num 1,
        totalDuration64 = Num (3602879701896397 / 36028797018963968),
        averageDuration64 = Num (3602879701896397 / 36028797018963968),
        minDuration64 = Num (3602879701896397 / 36028797018963968),
        maxDuration64 = Num (3602879701896397 / 36028797018963968),
        lastAccessedAt64 = 1, method64 = ''GET'', path64 = ''/a''\<rparr>)],
     options64 = defaultOptions\<rparr> =
   (Num 2,
    \<lparr>stats64 = [(''/a'',
       \<lparr>count64 = Num 2,
        totalDuration64 = Num (3602879701896397 / 18014398509481984),
        averageDuration64 = Num (3602879701896397 / 36028797018963968),
        minDuration64 = Num (3602879701896397 / 36028797018963968),
        maxDuration64 = Num (3602879701896397 / 36028797018963968),
        lastAccessedAt64 = 2, method64 = ''GET'', path64 = ''/a''\<rparr>)],
     options64 = defaultOptions\<rparr>)"
  by (simp add: run64_simps round64_2 round64_tenth_exact round64_two_tenths)

lemma tenth_step3:
  "record_call64 (observe64 3 ''/a'' (Num (3602879701896397 / 36028797018963968)))
    \<lparr>stats64 = [(''/a'',
       \<lparr>count64 = Num 2,
        totalDuration64 = Num (3602879701896397 / 18014398509481984),
        averageDuration64 = Num (3602879701896397 / 36028797018963968),
        minDuration64 = Num (3602879701896397 / 36028797018963968),
        maxDuration64 = Num (3602879701896397 / 36028797018963968),
        lastAccessedAt64 = 2, method64 = ''GET'', path64 = ''/a''\<rparr>)],
     options64 = defaultOptions\<rparr> =
   (Num 3,
    \<lparr>stats64 = [(''/a'',
       \<lparr>count64 = Num 3,
        totalDuration64 = Num (1351079888211149 / 4503599627370496),
        averageDuration64 = Num (7205759403792795 / 72057594037927936),
        minDuration64 = Num (3602879701896397 / 36028797018963968),
        maxDuration64 = Num (3602879701896397 / 36028797018963968),
        lastAccessedAt64 = 3, method64 = ''GET'', path64 = ''/a''\<rparr>)],
     options64 = defaultOptions\<rparr>)"
  by (simp add: run64_simps round64_3 round64_three_tenths round64_third)

text \<open>
  Claim C6, as stated: for every run of calls with non-negative durations, every entry
  satisfies \<open>minDuration \<le> averageDuration \<le> maxDuration\<close>. Three calls for one key
  with the duration \<open>0.1\<close> leave the total \<open>0.30000000000000004\<close> and the average
  \<open>0.10000000000000002\<close>, above the maximum \<open>0.1\<close>.
\<close>

theorem average_above_maximum_counterexample:
  "round64 (1 / 10) = Num (3602879701896397 / 36028797018963968)
   \<and> stats64 (run64 [observe64 1 ''/a'' (Num (3602879701896397 / 36028797018963968)),
                     observe64 2 ''/a'' (Num (3602879701896397 / 36028797018963968)),
                     observe64 3 ''/a'' (Num (3602879701896397 / 36028797018963968))]
        (createEndpointCounter64 defaultOptions)) =
      [(''/a'',
        \<lparr>count64 = Num 3,
         totalDuration64 = Num (1351079888211149 / 4503599627370496),
         averageDuration64 = Num (7205759403792795 / 72057594037927936),
         minDuration64 = Num (3602879701896397 / 36028797018963968),
         maxDuration64 = Num (3602879701896397 / 36028797018963968),
         lastAccessedAt64 = 3, method64 = ''GET'', path64 = ''/a''\<rparr>)]
   \<and> \<not> le64 (Num (7205759403792795 / 72057594037927936))
            (Num (3602879701896397 / 36028797018963968))"
  by (simp only: run64.simps tenth_step1 tenth_step2 tenth_step3 snd_conv round64_tenth) simp

subsection \<open>Durations of whole milliseconds\<close>

lemma entry_ok64_mono:
  "entry_ok64 S N e \<Longrightarrow> S \<le> S' \<Longrightarrow> N \<le> N' \<Longrightarrow> entry_ok64 S' N' e"
  unfolding entry_ok64_def by (meson order_trans)

lemma entry_ok64_fresh:
  assumes "n \<le> S" and "1 \<le> N" and "S < 2 ^ 53"
  shows "entry_ok64 S N (updateStats64 t2 (Num (real n)) (freshStats64 t1 m p))"
proof -
  let ?e = "updateStats64 t2 (Num (real n)) (freshStats64 t1 m p)"
  have n: "n < 2 ^ 53" using assms by simp
  have "count64 ?e = Num (real 1)"
    by (simp add: updateStats64_def freshStats64_def Let_def round64_1)
  moreover have "totalDuration64 ?e = Num (real n)"
    by (simp add: updateStats64_def freshStats64_def Let_def round64_nat [OF n])
  moreover have "minDuration64 ?e = Num (real n)" "maxDuration64 ?e = Num (real n)"
    by (simp_all add: updateStats64_def freshStats64_def Let_def)
  moreover have "averageDuration64 ?e = round64 (real n / real 1)"
    by (simp add: updateStats64_def freshStats64_def Let_def round64_1 round64_nat [OF n])
  ultimately show ?thesis
    unfolding entry_ok64_def using assms by (intro exI [of _ 1] exI [of _ n]) simp
qed

lemma entry_ok64_update:
  assumes ok: "entry_ok64 S N e" and S: "S + n < 2 ^ 53" and N: "N + 1 < 2 ^ 53"
  shows "entry_ok64 (S + n) (N + 1) (updateStats64 t2 (Num (real n)) e)"
proof -
  let ?e = "updateStats64 t2 (Num (real n)) e"
  from ok obtain c T m M :: nat where
    c: "count64 e = Num (real c)" "1 \<le> c" "c \<le> N"
    and T: "totalDuration64 e = Num (real T)" "T \<le> S"
    and mM: "minDuration64 e = Num (real m)" "maxDuration64 e = Num (real M)"
    and bounds: "m * c \<le> T" "T \<le> M * c" "M \<le> T"
    unfolding entry_ok64_def by blast
  have c1: "c + 1 < 2 ^ 53" using c(3) N by simp
  have T1: "T + n < 2 ^ 53" using T(2) S by simp
  have rc: "round64 (real c + 1) = Num (real (c + 1))"
    using round64_nat [OF c1] by (simp add: add.commute)
  have rT: "round64 (real T + real n) = Num (real (T + n))"
    using round64_nat [OF T1] by simp
  have count: "count64 ?e = Num (real (c + 1))"
    using c(1) rc by (simp add: updateStats64_def Let_def)
  have total: "totalDuration64 ?e = Num (real (T + n))"
    using T(1) rT by (simp add: updateStats64_def Let_def)
  have avg: "averageDuration64 ?e = round64 (real (T + n) / real (c + 1))"
    using c(1) rc T(1) rT by (simp add: updateStats64_def Let_def add.commute)
  have mn: "minDuration64 ?e = Num (real (min m n))"
    using mM(1) by (simp add: updateStats64_def Let_def min_def)
  have mx: "maxDuration64 ?e = Num (real (max M n))"
    using mM(2) by (simp add: updateStats64_def Let_def max_def)
  have "min m n * (c + 1) = min m n * c + min m n" by simp
  also have "\<dots> \<le> m * c + n"
    by (intro add_mono mult_le_mono1) simp_all
  also have "\<dots> \<le> T + n" using bounds(1) by simp
  finally have lo: "min m n * (c + 1) \<le> T + n" .
  have "T + n \<le> M * c + n" using bounds(2) by simp
  also have "\<dots> \<le> max M n * c + max M n"
    by (intro add_mono mult_le_mono1) simp_all
  also have "\<dots> = max M n * (c + 1)" by simp
  finally have hi: "T + n \<le> max M n * (c + 1)" .
  have top: "max M n \<le> T + n"
    using bounds(3) by simp
  show ?thesis
    unfolding entry_ok64_def
    using count total avg mn mx lo hi top c(2) c(3) T(2)
    by (intro exI [of _ "c + 1"] exI [of _ "T + n"] exI [of _ "min m n"] exI [of _ "max M n"])
      simp
qed

lemma entry_ok64_bounds:
  assumes ok: "entry_ok64 S N e" and S: "S < 2 ^ 53"
  shows "le64 (minDuration64 e) (averageDuration64 e)
       \<and> le64 (averageDuration64 e) (maxDuration64 e)"
proof -
  from ok obtain c T m M :: nat where
    c: "1 \<le> c" and T: "T \<le> S"
    and mM: "minDuration64 e = Num (real m)" "maxDuration64 e = Num (real M)"
    and bounds: "m * c \<le> T" "T \<le> M * c" "M \<le> T"
    and avg: "averageDuration64 e = round64 (real T / real c)"
    unfolding entry_ok64_def by blast
  have pos: "0 < real c" using c by simp
  have "real (m * c) \<le> real T" using bounds(1) by (simp only: of_nat_le_iff)
  then have lo: "real m \<le> real T / real c"
    using pos by (simp add: pos_le_divide_eq)
  have "real T \<le> real (M * c)" using bounds(2) by (simp only: of_nat_le_iff)
  then have hi: "real T / real c \<le> real M"
    using pos by (simp add: pos_divide_le_eq)
  have "M < 2 ^ 53" using bounds(3) T S by simp
  from round64_between [OF lo hi this] obtain y where
    "round64 (real T / real c) = Num y" "real m \<le> y" "y \<le> real M" by blast
  then show ?thesis using mM avg by simp
qed

lemma set_cleanup64: "set (stats64 (cleanupIfNeeded64 now c)) \<subseteq> set (stats64 c)"
  using set_Map_delete by (auto simp: cleanupIfNeeded64_def Let_def split: option.splits)

lemma stats_incrementCount64:
  "stats64 (snd (incrementCount64 t0 t1 t2 m pathname d c)) =
     Map_set pathname
       (updateStats64 t2 d (case Map_get (stats64 (cleanupIfNeeded64 t0 c)) pathname of
                              Some e \<Rightarrow> e | None \<Rightarrow> freshStats64 t1 m pathname))
       (stats64 (cleanupIfNeeded64 t0 c))"
  by (simp add: incrementCount64_def Let_def)

lemma entry_ok64_incrementCount:
  assumes all: "\<forall>p\<in>set (stats64 c). entry_ok64 S N (snd p)"
    and S: "S + n < 2 ^ 53" and N: "N + 1 < 2 ^ 53"
  shows "\<forall>p\<in>set (stats64 (snd (incrementCount64 t0 t1 t2 m k (Num (real n)) c))).
           entry_ok64 (S + n) (N + 1) (snd p)"
proof -
  let ?c1 = "cleanupIfNeeded64 t0 c"
  let ?cur = "case Map_get (stats64 ?c1) k of Some e \<Rightarrow> e | None \<Rightarrow> freshStats64 t1 m k"
  have c1: "\<forall>p\<in>set (stats64 ?c1). entry_ok64 S N (snd p)"
    using all set_cleanup64 by blast
  then have old: "\<forall>p\<in>set (stats64 ?c1). entry_ok64 (S + n) (N + 1) (snd p)"
    using entry_ok64_mono [of S N _ "S + n" "N + 1"] by simp
  have new: "entry_ok64 (S + n) (N + 1) (updateStats64 t2 (Num (real n)) ?cur)"
  proof (cases "Map_get (stats64 ?c1) k")
    case None
    have "entry_ok64 (S + n) (N + 1) (updateStats64 t2 (Num (real n)) (freshStats64 t1 m k))"
      by (rule entry_ok64_fresh) (use S in simp_all)
    then show ?thesis by (simp only: None option.case)
  next
    case (Some e)
    then have "entry_ok64 S N e" using c1 Map_get_in_set by fastforce
    then have "entry_ok64 (S + n) (N + 1) (updateStats64 t2 (Num (real n)) e)"
      using S N by (rule entry_ok64_update)
    then show ?thesis by (simp only: Some option.case)
  qed
  show ?thesis
    unfolding stats_incrementCount64 using old new set_Map_set by fastforce
qed

lemma entry_ok64_run:
  assumes "\<forall>p\<in>set (stats64 c). entry_ok64 S N (snd p)"
    and "map callDuration64 rs = map (\<lambda>n. Num (real n)) ns"
    and "S + sum_list ns < 2 ^ 53" and "N + length rs < 2 ^ 53"
  shows "\<forall>p\<in>set (stats64 (run64 rs c)).
           entry_ok64 (S + sum_list ns) (N + length rs) (snd p)"
  using assms
proof (induction rs arbitrary: ns c S N)
  case Nil
  then show ?case by simp
next
  case (Cons r rs)
  from Cons.prems(2) obtain n ns' where ns: "ns = n # ns'"
    and d: "callDuration64 r = Num (real n)"
    and rest: "map callDuration64 rs = map (\<lambda>n. Num (real n)) ns'"
    by (cases ns) auto
  let ?c' = "snd (record_call64 r c)"
  have S: "S + n < 2 ^ 53" and N: "N + 1 < 2 ^ 53"
    using Cons.prems(3,4) ns by simp_all
  have step: "\<forall>p\<in>set (stats64 ?c'). entry_ok64 (S + n) (N + 1) (snd p)"
    unfolding record_call64_def d using Cons.prems(1) S N by (rule entry_ok64_incrementCount)
  have "\<forall>p\<in>set (stats64 (run64 rs ?c')).
          entry_ok64 (S + n + sum_list ns') (N + 1 + length rs) (snd p)"
    using step rest Cons.prems(3,4) ns by (intro Cons.IH) (simp_all add: add.assoc)
  then show ?case
    using ns by (simp add: add.assoc)
qed

lemma sum_list_take_le: "sum_list (take j (ns :: nat list)) \<le> sum_list ns"
proof -
  have "sum_list ns = sum_list (take j ns) + sum_list (drop j ns)"
    by (metis append_take_drop_id sum_list_append)
  then show ?thesis by simp
qed

text \<open>
  Claim C6, amended: for every run of fewer than \<open>2 ^ 53\<close> calls on a fresh counter
  whose durations are whole numbers of milliseconds, non-negative and with a sum below
  \<open>2 ^ 53\<close>, after every call (after every prefix of the run) every entry of the store
  satisfies \<open>minDuration \<le> averageDuration \<le> maxDuration\<close>, in the double arithmetic
  of the program.
\<close>

theorem duration_bounds_invariant:
  assumes durations: "map callDuration64 rs = map (\<lambda>n. Num (real n)) ns"
    and sum: "sum_list ns < 2 ^ 53" and len: "length rs < 2 ^ 53"
  shows "\<forall>j. \<forall>p\<in>set (stats64 (run64 (take j rs) (createEndpointCounter64 opts))).
           le64 (minDuration64 (snd p)) (averageDuration64 (snd p))
           \<and> le64 (averageDuration64 (snd p)) (maxDuration64 (snd p))"
proof (intro allI ballI)
  fix j p
  assume p: "p \<in> set (stats64 (run64 (take j rs) (createEndpointCounter64 opts)))"
  have d: "map callDuration64 (take j rs) = map (\<lambda>n. Num (real n)) (take j ns)"
    using durations by (simp only: take_map [symmetric])
  have S: "0 + sum_list (take j ns) < 2 ^ 53"
    using sum_list_take_le [of j ns] sum by simp
  have N: "0 + length (take j rs) < 2 ^ 53"
    using len by simp
  have "\<forall>p\<in>set (stats64 (createEndpointCounter64 opts)). entry_ok64 0 0 (snd p)"
    by (simp add: createEndpointCounter64_def)
  from entry_ok64_run [OF this d S N] p
  have "entry_ok64 (0 + sum_list (take j ns)) (0 + length (take j rs)) (snd p)"
    by blast
  then show "le64 (minDuration64 (snd p)) (averageDuration64 (snd p))
           \<and> le64 (averageDuration64 (snd p)) (maxDuration64 (snd p))"
    using S by (rule entry_ok64_bounds)
qed

lemma round64_numeral:
  "numeral w < (2::nat) ^ 53 \<Longrightarrow> round64 (numeral w) = Num (numeral w)"
  using round64_nat [of "numeral w"] by simp

lemma whole_step1:
  "record_call64 (observe64 1 ''/a'' (Num 100)) (createEndpointCounter64 defaultOptions) =
   (Num 1,
    \<lparr>stats64 = [(''/a'',
       \<lparr>count64 = Num 1, totalDuration64 = Num 100, averageDuration64 = Num 100,
        minDuration64 = Num 100, maxDuration64 = Num 100,
        lastAccessedAt64 = 1, method64 = ''GET'', path64 = ''/a''\<rparr>)],
     options64 = defaultOptions\<rparr>)"
  by (simp add: run64_simps round64_1 round64_numeral)

lemma whole_step2:
  "record_call64 (observe64 2 ''/a'' (Num 200))
    \<lparr>stats64 = [(''/a'',
       \<lparr>count64 = Num 1, totalDuration64 = Num 100, averageDuration64 = Num 100,
        minDuration64 = Num 100, maxDuration64 = Num 100,
        lastAccessedAt64 = 1, method64 = ''GET'', path64 = ''/a''\<rparr>)],
     options64 = defaultOptions\<rparr> =
   (Num 2,
    \<lparr>stats64 = [(''/a'',
       \<lparr>count64 = Num 2, totalDuration64 = Num 300, averageDuration64 = Num 150,
        minDuration64 = Num 100, maxDuration64 = Num 200,
        lastAccessedAt64 = 2, method64 = ''GET'', path64 = ''/a''\<rparr>)],
     options64 = defaultOptions\<rparr>)"
  by (simp add: run64_simps round64_2 round64_numeral)

theorem duration_bounds_invariant_witness:
  "map callDuration64 [observe64 1 ''/a'' (Num 100), observe64 2 ''/a'' (Num 200)]
     = map (\<lambda>n. Num (real n)) [100, 200]
   \<and> sum_list [100, 200 :: nat] < 2 ^ 53
   \<and> length [observe64 1 ''/a'' (Num 100), observe64 2 ''/a'' (Num 200)] < 2 ^ 53
   \<and> stats64 (run64 (take 2 [observe64 1 ''/a'' (Num 100), observe64 2 ''/a'' (Num 200)])
         (createEndpointCounter64 defaultOptions)) =
      [(''/a'',
        \<lparr>count64 = Num 2, totalDuration64 = Num 300, averageDuration64 = Num 150,
         minDuration64 = Num 100, maxDuration64 = Num 200,
         lastAccessedAt64 = 2, method64 = ''GET'', path64 = ''/a''\<rparr>)]
   \<and> le64 (Num 100) (Num 150) \<and> le64 (Num 150) (Num 200)"
proof -
  let ?rs = "[observe64 1 ''/a'' (Num 100), observe64 2 ''/a'' (Num 200)]"
  have durations: "map callDuration64 ?rs = map (\<lambda>n. Num (real n)) [100, 200]"
    by (simp add: observe64_def)
  have sum: "sum_list [100, 200 :: nat] < 2 ^ 53" by simp
  have len: "length ?rs < 2 ^ 53" by simp
  have "take 2 ?rs = ?rs" by simp
  then have st: "stats64 (run64 (take 2 ?rs) (createEndpointCounter64 defaultOptions)) =
      [(''/a'',
        \<lparr>count64 = Num 2, totalDuration64 = Num 300, averageDuration64 = Num 150,
         minDuration64 = Num 100, maxDuration64 = Num 200,
         lastAccessedAt64 = 2, method64 = ''GET'', path64 = ''/a''\<rparr>)]"
    by (simp only: run64.simps whole_step1 whole_step2 snd_conv) simp
  from duration_bounds_invariant [OF durations sum len, of defaultOptions]
  have "\<forall>p\<in>set (stats64 (run64 (take 2 ?rs) (createEndpointCounter64 defaultOptions))).
          le64 (minDuration64 (snd p)) (averageDuration64 (snd p))
          \<and> le64 (averageDuration64 (snd p)) (maxDuration64 (snd p))"
    by blast
  then have "le64 (Num 100) (Num 150) \<and> le64 (Num 150) (Num 200)"
    unfolding st by simp
  then show ?thesis
    using durations sum len st by blast
qed

section \<open>C7: the ranking by count\<close>

text \<open>With the comparator \<open>byCount\<close> the sort is the stable sort on the negated count.\<close>

lemma insort_cmp_byCount:
  "insort_cmp byCount x ys = insort_key (\<lambda>p. - int (count (snd p))) x ys"
  by (induction ys) (auto simp: byCount_def)

lemma Array_sort_byCount:
  "Array_sort byCount xs = sort_key (\<lambda>p. - int (count (snd p))) xs"
  by (induction xs) (auto simp: Array_sort_def sort_key_def insort_cmp_byCount)

lemma sorted_desc_count:
  "sorted_wrt (\<lambda>a b. count (snd b) \<le> count (snd a)) (Array_sort byCount xs)"
proof -
  have "sorted (map (\<lambda>p. - int (count (snd p))) (Array_sort byCount xs))"
    by (simp add: Array_sort_byCount)
  then show ?thesis
    by (simp add: sorted_wrt_map)
qed

lemma stable_count:
  "filter (\<lambda>p. count (snd p) = n) (Array_sort byCount xs) = filter (\<lambda>p. count (snd p) = n) xs"
proof -
  have "filter (\<lambda>p. - int (count (snd p)) = - int n) (sort_key (\<lambda>p. - int (count (snd p))) xs)
      = filter (\<lambda>p. - int (count (snd p)) = - int n) xs"
    by (rule sort_key_stable)
  then show ?thesis by (simp add: Array_sort_byCount)
qed

lemma mset_Array_sort_byCount: "mset (Array_sort byCount xs) = mset xs"
  by (simp add: Array_sort_byCount)

text \<open>
  Claim C7, as stated: for every limit \<open>\<le> 0\<close> the ranking is empty. \<open>slice(0, limit)\<close>
  counts a negative \<open>limit\<close> from the end: with two entries, \<open>getTopEndpoints(-1)\<close>
  returns the first of the ranking.
\<close>

theorem getTopEndpoints_negative_limit_counterexample:
  "getTopEndpoints (- 1)
     (counterWith 3 [(''/b'', entryAt ''/b'' 1 10 2), (''/a'', entryAt ''/a'' 2 10 3)])
   = [(''/a'', entryAt ''/a'' 2 10 3)]"
  by (simp add: getTopEndpoints_def Array_slice0_def Array_sort_def byCount_def
      stats_counterWith entryAt_def)

text \<open>
  Claim C7, amended: the ranking is the list of all entries sorted descending by count,
  entries of equal count in the iteration order of the store, cut by \<open>slice(0, limit)\<close>:
  for \<open>limit \<ge> 0\<close> its first \<open>limit\<close> elements (none for \<open>limit = 0\<close>, all for
  \<open>limit\<close> at least the store size), for \<open>limit < 0\<close> all but its last \<open>-limit\<close>
  elements.
\<close>

theorem getTopEndpoints_spec:
  "mset (Array_sort byCount (stats c)) = mset (stats c)
   \<and> sorted_wrt (\<lambda>a b. count (snd b) \<le> count (snd a)) (Array_sort byCount (stats c))
   \<and> (\<forall>n. filter (\<lambda>p. count (snd p) = n) (Array_sort byCount (stats c))
          = filter (\<lambda>p. count (snd p) = n) (stats c))
   \<and> (0 \<le> limit \<longrightarrow> getTopEndpoints limit c = take (nat limit) (Array_sort byCount (stats c)))
   \<and> (limit < 0 \<longrightarrow> getTopEndpoints limit c =
         take (Map_size (stats c) - nat (- limit)) (Array_sort byCount (stats c)))
   \<and> (limit = 0 \<longrightarrow> getTopEndpoints limit c = [])
   \<and> (int (Map_size (stats c)) \<le> limit \<longrightarrow> getTopEndpoints limit c = Array_sort byCount (stats c))"
proof -
  have len: "length (Array_sort byCount (stats c)) = length (stats c)"
    by (simp add: Array_sort_byCount)
  have a: "0 \<le> limit \<Longrightarrow> getTopEndpoints limit c = take (nat limit) (Array_sort byCount (stats c))"
    by (simp add: getTopEndpoints_def Array_slice0_def Let_def len min_def)
  have b: "limit < 0 \<Longrightarrow> getTopEndpoints limit c =
         take (Map_size (stats c) - nat (- limit)) (Array_sort byCount (stats c))"
  proof -
    assume l: "limit < 0"
    have "nat (max (int (length (stats c)) + limit) 0) = length (stats c) - nat (- limit)"
      using l by linarith
    then show ?thesis using l 
      by (simp add: getTopEndpoints_def Array_slice0_def Let_def len Map_size_def)
  qed
  have c0: "limit = 0 \<Longrightarrow> getTopEndpoints limit c = []"
    using a by simp
  have d: "int (Map_size (stats c)) \<le> limit \<Longrightarrow> getTopEndpoints limit c = Array_sort byCount (stats c)"
  proof -
    assume l: "int (Map_size (stats c)) \<le> limit"
    then have "0 \<le> limit" by linarith
    then show ?thesis using a l len by (simp add: Map_size_def)
  qed
  show ?thesis
    using a b c0 d sorted_desc_count stable_count mset_Array_sort_byCount by blast
qed

theorem getTopEndpoints_spec_witness:
  "(0::int) \<le> 1
   \<and> getTopEndpoints 1 (counterWith 3 [(''/b'', entryAt ''/b'' 1 10 2), (''/a'', entryAt ''/a'' 2 10 3)])
       = [(''/a'', entryAt ''/a'' 2 10 3)]
   \<and> (- 1::int) < 0
   \<and> getTopEndpoints (- 1) (counterWith 3 [(''/b'', entryAt ''/b'' 1 10 2), (''/a'', entryAt ''/a'' 2 10 3)])
       = [(''/a'', entryAt ''/a'' 2 10 3)]
   \<and> int (Map_size (stats (counterWith 3 [(''/b'', entryAt ''/b'' 1 10 2), (''/a'', entryAt ''/a'' 2 10 3)]))) \<le> 5
   \<and> getTopEndpoints 5 (counterWith 3 [(''/b'', entryAt ''/b'' 1 10 2), (''/a'', entryAt ''/a'' 2 10 3)])
       = [(''/a'', entryAt ''/a'' 2 10 3), (''/b'', entryAt ''/b'' 1 10 2)]"
proof -
  let ?c = "counterWith 3 [(''/b'', entryAt ''/b'' 1 10 2), (''/a'', entryAt ''/a'' 2 10 3)]"
  have sorted: "Array_sort byCount (stats ?c)
      = [(''/a'', entryAt ''/a'' 2 10 3), (''/b'', entryAt ''/b'' 1 10 2)]"
    by (simp add: Array_sort_def byCount_def stats_counterWith entryAt_def)
  have size: "Map_size (stats ?c) = 2"
    by (simp add: stats_counterWith Map_size_def)
  show ?thesis
    using getTopEndpoints_spec [of ?c 1] getTopEndpoints_spec [of ?c "- 1"]
      getTopEndpoints_spec [of ?c 5] sorted size
    by simp
qed

section \<open>C8: the summary\<close>

lemma foldl_count_sum: "foldl (\<lambda>sum stat. sum + count stat) a xs = a + sum_list (map count xs)"
  by (induction xs arbitrary: a) auto

lemma foldl_total_sum: "foldl (\<lambda>sum stat. sum + totalDuration stat) a xs = a + sum_list (map totalDuration xs)"
  by (induction xs arbitrary: a) auto

text \<open>
  Claim C8: for every store, the summary's requests and duration are the sums over the
  entries, and its average is the quotient of the two when there is a request and 0
  otherwise; on the empty store all four numbers are 0 and \<open>topEndpoint\<close> and
  \<open>slowestEndpoint\<close> are absent.
\<close>

theorem getSummary_average:
  "totalRequests (getSummary c) = sum_list (map count (Map_values (stats c)))
   \<and> sumDuration (getSummary c) = sum_list (map totalDuration (Map_values (stats c)))
   \<and> meanDuration (getSummary c) =
       (if totalRequests (getSummary c) > 0
        then sumDuration (getSummary c) / real (totalRequests (getSummary c)) else 0)
   \<and> (stats c = [] \<longrightarrow> getSummary c =
        \<lparr>totalEndpoints = 0, totalRequests = 0, sumDuration = 0, meanDuration = 0,
         topEndpoint = None, slowestEndpoint = None\<rparr>)"
  by (simp add: getSummary_def Let_def foldl_count_sum foldl_total_sum Map_values_def Map_size_def
      getTopEndpoints_def getSlowestEndpoints_def Array_sort_def Array_slice0_def)

theorem getSummary_average_witness:
  "stats (withCapacity 3) = []
   \<and> getSummary (withCapacity 3) =
        \<lparr>totalEndpoints = 0, totalRequests = 0, sumDuration = 0, meanDuration = 0,
         topEndpoint = None, slowestEndpoint = None\<rparr>
   \<and> totalRequests (getSummary
        (counterWith 3 [(''/b'', entryAt ''/b'' 1 10 2), (''/a'', entryAt ''/a'' 2 10 3)])) = 3
   \<and> sumDuration (getSummary
        (counterWith 3 [(''/b'', entryAt ''/b'' 1 10 2), (''/a'', entryAt ''/a'' 2 10 3)])) = 30
   \<and> meanDuration (getSummary
        (counterWith 3 [(''/b'', entryAt ''/b'' 1 10 2), (''/a'', entryAt ''/a'' 2 10 3)])) = 10"
  using getSummary_average [of "withCapacity 3"]
    getSummary_average [of "counterWith 3 [(''/b'', entryAt ''/b'' 1 10 2), (''/a'', entryAt ''/a'' 2 10 3)]"]
  by (simp add: stats_withCapacity stats_counterWith Map_values_def entryAt_def)

section \<open>C9: \<open>reset\<close>\<close>

text \<open>
  Claim C9, as stated: for every key \<open>k\<close>, \<open>reset(k)\<close> removes the entry of \<open>k\<close> and
  no other. The empty string is falsy, so \<open>reset('')\<close> takes the branch of the call
  without a key and clears the store: the entry of \<open>/a\<close> is gone too.
\<close>

theorem reset_empty_key_counterexample:
  "record_all [observe 1 '''' 10, observe 2 ''/a'' 10] (withCapacity 3) =
     ([1, 1], counterWith 3 [('''', entryAt '''' 1 10 1), (''/a'', entryAt ''/a'' 1 10 2)])
   \<and> stats (reset (Some '''')
         (counterWith 3 [('''', entryAt '''' 1 10 1), (''/a'', entryAt ''/a'' 1 10 2)])) = []"
  by (simp only: run_ea) (simp add: reset_def)

text \<open>
  Claim C9, amended: for every non-empty key \<open>k\<close>, \<open>reset(k)\<close> removes exactly the
  entry of \<open>k\<close> and leaves every other entry, and the order of the store, unchanged (it
  changes nothing when \<open>k\<close> is absent); \<open>reset()\<close> without a key, and \<open>reset('')\<close>,
  empty the store; each form, called twice in a row, leaves the state that one call
  leaves.
\<close>

theorem reset_spec:
  "(k \<noteq> '''' \<longrightarrow>
      stats (reset (Some k) c) = filter (\<lambda>p. fst p \<noteq> k) (stats c)
    \<and> options (reset (Some k) c) = options c
    \<and> (\<forall>k'. Map_get (stats (reset (Some k) c)) k' = (if k' = k then None else Map_get (stats c) k'))
    \<and> (\<not> Map_has (stats c) k \<longrightarrow> reset (Some k) c = c))
   \<and> stats (reset None c) = [] \<and> options (reset None c) = options c
   \<and> stats (reset (Some '''') c) = []
   \<and> reset endpoint (reset endpoint c) = reset endpoint c"
  by (cases endpoint) (auto simp: reset_def Map_get_delete Map_delete_absent Map_delete_idem
      simp flip: Map_delete_def)

theorem reset_spec_witness:
  "''/a'' \<noteq> ''''
   \<and> stats (reset (Some ''/a'')
        (counterWith 3 [('''', entryAt '''' 1 10 1), (''/a'', entryAt ''/a'' 1 10 2)]))
       = [('''', entryAt '''' 1 10 1)]
   \<and> ''/q'' \<noteq> ''''
   \<and> \<not> Map_has (stats (counterWith 3 [('''', entryAt '''' 1 10 1), (''/a'', entryAt ''/a'' 1 10 2)])) ''/q''
   \<and> reset (Some ''/q'') (counterWith 3 [('''', entryAt '''' 1 10 1), (''/a'', entryAt ''/a'' 1 10 2)])
       = counterWith 3 [('''', entryAt '''' 1 10 1), (''/a'', entryAt ''/a'' 1 10 2)]"
  using reset_spec [of "''/a''" "counterWith 3 [('''', entryAt '''' 1 10 1), (''/a'', entryAt ''/a'' 1 10 2)]"]
    reset_spec [of "''/q''" "counterWith 3 [('''', entryAt '''' 1 10 1), (''/a'', entryAt ''/a'' 1 10 2)]"]
  by (simp add: stats_counterWith Map_has_def Map_keys_def)

section \<open>C10: \<open>getStats\<close> with the empty key\<close>

text \<open>
  Claim C10: \<open>getStats('')\<close> returns a copy of the whole map, as the call without an
  argument does, and not the entry stored under the empty key, also right after
  \<open>incrementCount\<close> has created or updated that entry.
\<close>

theorem getStats_empty_key:
  "getStats (Some '''') c = AllStats (stats c)
   \<and> Map_get (stats (snd (incrementCount t0 t1 t2 m '''' d c))) '''' \<noteq> None
   \<and> getStats (Some '''') (snd (incrementCount t0 t1 t2 m '''' d c))
        = AllStats (stats (snd (incrementCount t0 t1 t2 m '''' d c)))
   \<and> getStats (Some '''') (snd (incrementCount t0 t1 t2 m '''' d c))
        \<noteq> Entry (Map_get (stats (snd (incrementCount t0 t1 t2 m '''' d c))) '''')"
  by (simp add: getStats_def stats_incrementCount Map_get_set)

theorem getStats_empty_key_witness:
  "Map_get (stats (snd (incrementCount 1 1 1 ''GET'' '''' 10 (withCapacity 3)))) ''''
     = Some (entryAt '''' 1 10 1)
   \<and> getStats (Some '''') (snd (incrementCount 1 1 1 ''GET'' '''' 10 (withCapacity 3)))
     = AllStats [('''', entryAt '''' 1 10 1)]"
  using getStats_empty_key [of "withCapacity 3" 1 1 1 "''GET''" 10]
  by (simp only: incrementCount_observe step_e1 snd_conv stats_counterWith) simp

end
